theory Spec2Isabelle
  imports Main "HOL-Library.Word"
begin

section \<open>Values of the Go program\<close>

text \<open>
  A byte slice is either the nil slice or a (possibly empty) sequence of bytes backed by
  an array. \<^verbatim>\<open>[]byte{}\<close> and \<^verbatim>\<open>make([]byte, 0)\<close> are empty but not nil.
\<close>

type_synonym byte = "8 word"

datatype slice = NilSlice | Slice "byte list"

fun len :: "slice \<Rightarrow> nat" where
  "len NilSlice = 0"
| "len (Slice xs) = length xs"

text \<open>
  A non-nil \<^verbatim>\<open>error\<close> interface value holds a dynamic type and a pointer. The two
  dynamic types of the standard library that matter here are \<^verbatim>\<open>*errors.errorString\<close>
  (made by \<^verbatim>\<open>errors.New\<close>) and \<^verbatim>\<open>*fmt.wrapError\<close> (made by \<^verbatim>\<open>fmt.Errorf\<close> with
  \<^verbatim>\<open>%w\<close>). Each value carries the address of the object it points to, then the
  object's content: the message, and for a wrapper the wrapped error. The nil error is
  \<open>None\<close>.
\<close>

datatype go_error =
    ErrorString nat string
  | WrapError nat string go_error

type_synonym error = "go_error option"

text \<open>
  Go's \<^verbatim>\<open>==\<close> on two interface values: both nil, or the same dynamic type and the same
  pointer. The content behind the pointers is not compared.
\<close>

fun same_error :: "error \<Rightarrow> error \<Rightarrow> bool" where
  "same_error None None = True"
| "same_error (Some (ErrorString a _)) (Some (ErrorString b _)) = (a = b)"
| "same_error (Some (WrapError a _ _)) (Some (WrapError b _ _)) = (a = b)"
| "same_error _ _ = False"


text \<open>
  \<^verbatim>\<open>var ErrSessionCollision = errors.New("unable to store session, ...")\<close>:
  one object, allocated once when the package is initialised. The model gives it
  address 0; every other call of \<^verbatim>\<open>errors.New\<close> returns another address.
\<close>

definition ErrSessionCollision_addr :: nat where
  "ErrSessionCollision_addr = 0"

definition ErrSessionCollision :: go_error where
  "ErrSessionCollision =
     ErrorString ErrSessionCollision_addr
       ''unable to store session, existing session ID already exists''"

section \<open>The SessionStorer interface\<close>

text \<open>
  An implementation of the interface is a pair of methods over a state \<open>'s\<close> of its own
  (the backend: a table, a cache, the random source it draws from). A method takes the
  state and returns its results with the new state. \<open>'c\<close> is \<^verbatim>\<open>context.Context\<close>.
\<close>

record ('c, 's) SessionStorer =
  GenerateAndStore :: "'c \<Rightarrow> string \<Rightarrow> string \<Rightarrow> 's \<Rightarrow> (slice \<times> error) \<times> 's"
  Get :: "'c \<Rightarrow> slice \<Rightarrow> 's \<Rightarrow> (string \<times> string \<times> error) \<times> 's"

section \<open>New\<close>

text \<open>
  The loop \<^verbatim>\<open>for i := 0; i < maxGenerateAttempts; i++\<close>, from the value \<open>i\<close> of the
  counter and the state \<open>st\<close> of the storer. Go's \<^verbatim>\<open>int\<close> is a machine integer, but
  \<^verbatim>\<open>i++\<close> runs only when \<open>i < maxGenerateAttempts\<close>, so it never wraps, and the
  counter is an \<open>int\<close> here.
\<close>

function New_loop ::
  "'c \<Rightarrow> ('c, 's) SessionStorer \<Rightarrow> string \<Rightarrow> string \<Rightarrow> int \<Rightarrow> int \<Rightarrow> 's \<Rightarrow> (slice \<times> error) \<times> 's"
where
  "New_loop ctx storer userId metaData maxGenerateAttempts i st =
     (if i < maxGenerateAttempts then
        (case GenerateAndStore storer ctx userId metaData st of
           ((session, err), st') \<Rightarrow>
             if same_error err (Some ErrSessionCollision)
             then New_loop ctx storer userId metaData maxGenerateAttempts (i + 1) st'
             else ((session, err), st'))
      else ((Slice [], Some ErrSessionCollision), st))"
  by pat_completeness auto
termination
  by (relation "measure (\<lambda>(ctx, storer, userId, metaData, maxGenerateAttempts, i, st).
                  nat (maxGenerateAttempts - i))") auto

definition New ::
  "'c \<Rightarrow> ('c, 's) SessionStorer \<Rightarrow> string \<Rightarrow> string \<Rightarrow> int \<Rightarrow> 's \<Rightarrow> (slice \<times> error) \<times> 's"
where
  "New ctx storer userId metaData maxGenerateAttempts st =
     New_loop ctx storer userId metaData maxGenerateAttempts 0 st"

section \<open>Observing a storer\<close>

text \<open>
  \<open>New\<close> passes the same context, user and metadata to every call, so what a storer
  answers is fixed by its state. \<open>after_calls\<close> is the state of the storer after \<open>n\<close>
  calls of \<open>GenerateAndStore\<close>, and \<open>nth_result\<close> is what the call number \<open>n + 1\<close>
  returns.
\<close>

fun after_calls ::
  "('c, 's) SessionStorer \<Rightarrow> 'c \<Rightarrow> string \<Rightarrow> string \<Rightarrow> nat \<Rightarrow> 's \<Rightarrow> 's"
where
  "after_calls storer ctx userId metaData 0 st = st"
| "after_calls storer ctx userId metaData (Suc n) st =
     after_calls storer ctx userId metaData n
       (snd (GenerateAndStore storer ctx userId metaData st))"

definition nth_result ::
  "('c, 's) SessionStorer \<Rightarrow> 'c \<Rightarrow> string \<Rightarrow> string \<Rightarrow> nat \<Rightarrow> 's \<Rightarrow> slice \<times> error"
where
  "nth_result storer ctx userId metaData n st =
     fst (GenerateAndStore storer ctx userId metaData
            (after_calls storer ctx userId metaData n st))"

text \<open>
  A storer that counts how often its \<open>GenerateAndStore\<close> is invoked and otherwise
  delegates to the storer it wraps, as a test double does.
\<close>

definition counted :: "('c, 's) SessionStorer \<Rightarrow> ('c, nat \<times> 's) SessionStorer" where
  "counted storer =
     \<lparr> GenerateAndStore = (\<lambda>ctx userId metaData (n, st).
          case GenerateAndStore storer ctx userId metaData st of
            (r, st') \<Rightarrow> (r, (Suc n, st'))),
       Get = (\<lambda>ctx session (n, st).
          case Get storer ctx session st of (r, st') \<Rightarrow> (r, (n, st'))) \<rparr>"

text \<open>
  A storer that replays a script: each call of \<open>GenerateAndStore\<close> returns the next
  scripted result; once the script is used up it fails with an error of its own.
\<close>

definition scripted :: "(unit, (slice \<times> error) list) SessionStorer" where
  "scripted =
     \<lparr> GenerateAndStore = (\<lambda>ctx userId metaData script.
          case script of
            [] \<Rightarrow> ((NilSlice, Some (ErrorString 7 ''script exhausted'')), [])
          | r # rest \<Rightarrow> (r, rest)),
       Get = (\<lambda>ctx session script. ((''''  , '''', None), script)) \<rparr>"

section \<open>The retry algorithm as the specification words it\<close>

text \<open>
  The specification describes the orchestrator as a machine with two states: in
  \<open>RUNNING\<close> it holds the attempt counter, in \<open>DONE\<close> the result to return. (Both also
  hold the storer's state, which the calls change.) One step from \<open>RUNNING\<close>: while
  \<open>attempt < maxAttempts\<close> call the storage; on the collision signal add one to the
  counter and stay in \<open>RUNNING\<close>; on any other outcome go to \<open>DONE\<close> with that result and
  error; when the attempts are used up go to \<open>DONE\<close> with the empty identifier and the
  collision signal.
\<close>

datatype 's machine = RUNNING int 's | DONE "slice \<times> error" 's

fun spec_step ::
  "'c \<Rightarrow> ('c, 's) SessionStorer \<Rightarrow> string \<Rightarrow> string \<Rightarrow> int \<Rightarrow> 's machine \<Rightarrow> 's machine"
where
  "spec_step ctx storage userId metaData maxAttempts (DONE r st) = DONE r st"
| "spec_step ctx storage userId metaData maxAttempts (RUNNING attempt st) =
     (if attempt < maxAttempts then
        (let (r, st') = GenerateAndStore storage ctx userId metaData st in
         if same_error (snd r) (Some ErrSessionCollision)
         then RUNNING (attempt + 1) st'
         else DONE r st')
      else DONE (Slice [], Some ErrSessionCollision) st)"

fun remaining :: "int \<Rightarrow> 's machine \<Rightarrow> nat" where
  "remaining maxAttempts (DONE r st) = 0"
| "remaining maxAttempts (RUNNING attempt st) = Suc (nat (maxAttempts - attempt))"

function spec_run ::
  "'c \<Rightarrow> ('c, 's) SessionStorer \<Rightarrow> string \<Rightarrow> string \<Rightarrow> int \<Rightarrow> 's machine \<Rightarrow> (slice \<times> error) \<times> 's"
where
  "spec_run ctx storage userId metaData maxAttempts (DONE r st) = (r, st)"
| "spec_run ctx storage userId metaData maxAttempts (RUNNING attempt st) =
     spec_run ctx storage userId metaData maxAttempts
       (spec_step ctx storage userId metaData maxAttempts (RUNNING attempt st))"
  by pat_completeness auto
termination
  by (relation "measure (\<lambda>(ctx, storage, userId, metaData, maxAttempts, M).
                  remaining maxAttempts M)")
     (auto split: prod.splits)

definition CreateSession ::
  "'c \<Rightarrow> ('c, 's) SessionStorer \<Rightarrow> string \<Rightarrow> string \<Rightarrow> int \<Rightarrow> 's \<Rightarrow> (slice \<times> error) \<times> 's"
where
  "CreateSession ctx storage userId metaData maxAttempts st =
     spec_run ctx storage userId metaData maxAttempts (RUNNING 0 st)"

section \<open>The random source\<close>

text \<open>
  \<^verbatim>\<open>make([]byte, n)\<close> is the runtime's \<^verbatim>\<open>makeslice\<close>. It panics with
  \<^verbatim>\<open>makeslice: len out of range\<close> when \<open>n\<close> is negative or above the runtime's
  constant \<^verbatim>\<open>maxAlloc\<close> (\<open>2 ^ 48\<close> on the 64-bit platforms). Below that limit the
  allocator still has to find the memory: when it cannot, the runtime stops the program
  with \<^verbatim>\<open>fatal error: out of memory\<close>, and the call does not return either. Otherwise
  \<^verbatim>\<open>make\<close> yields \<open>n\<close> zero bytes. What the runtime can give is not in the source:
  the model takes it as a parameter, \<open>maxAlloc\<close> and the largest length the heap can
  supply at the time of the call.
\<close>

datatype panic = MakesliceLenOutOfRange | OutOfMemory | IndexOutOfRange

record runtime =
  maxAlloc :: int
  heapAvailable :: int

definition make_bytes :: "runtime \<Rightarrow> int \<Rightarrow> panic + byte list" where
  "make_bytes rt n =
     (if n < 0 \<or> maxAlloc rt < n then Inl MakesliceLenOutOfRange
      else if heapAvailable rt < n then Inl OutOfMemory
      else Inr (replicate (nat n) 0))"

text \<open>
  A 64-bit runtime with one GiB of memory to give.
\<close>

definition runtime_amd64 :: runtime where
  "runtime_amd64 = \<lparr> maxAlloc = 2 ^ 48, heapAvailable = 2 ^ 30 \<rparr>"

text \<open>
  \<^verbatim>\<open>io.Reader\<close>: \<^verbatim>\<open>Read(p []byte) (n int, err error)\<close>. The slice is passed by value
  and shares its array with the caller's, so all \<open>Read\<close> can do to the caller's buffer
  is to assign elements \<^verbatim>\<open>p[i] = v\<close>. A reader over a state \<open>'r\<close> is therefore a
  function from the buffer it is given and its state to the assignments it makes, in
  order, the count and the error it returns, and its new state. An assignment at an
  index outside the slice panics, as in Go.
\<close>

type_synonym 'r io_Reader = "byte list \<Rightarrow> 'r \<Rightarrow> ((nat \<times> byte) list \<times> int \<times> error) \<times> 'r"

fun assign_all :: "(nat \<times> byte) list \<Rightarrow> byte list \<Rightarrow> panic + byte list" where
  "assign_all [] b = Inr b"
| "assign_all ((i, v) # ws) b =
     (if i < length b then assign_all ws (b[i := v]) else Inl IndexOutOfRange)"

record 'r randomSource =
  reader :: "'r io_Reader"
  bytes :: int

definition NewRandomSource :: "int \<Rightarrow> 'r io_Reader \<Rightarrow> 'r randomSource" where
  "NewRandomSource nbytes randomSourceReader =
     \<lparr> reader = randomSourceReader, bytes = nbytes \<rparr>"

text \<open>
  \<^verbatim>\<open>b := make([]byte, r.bytes); _, err := r.reader.Read(b); return b, err\<close>.
  The count that \<open>Read\<close> returns is dropped. \<open>rt\<close> is the runtime the call runs on.
\<close>

definition Generate ::
  "runtime \<Rightarrow> 'r randomSource \<Rightarrow> 'r \<Rightarrow> panic + ((slice \<times> error) \<times> 'r)"
where
  "Generate rt r st =
     (case make_bytes rt (bytes r) of
        Inl p \<Rightarrow> Inl p
      | Inr b \<Rightarrow>
          (case reader r b st of
             ((ws, n, err), st') \<Rightarrow>
               (case assign_all ws b of
                  Inl p \<Rightarrow> Inl p
                | Inr b' \<Rightarrow> Inr ((Slice b', err), st'))))"

text \<open>
  A reader over the bytes that are left of a byte string, as \<^verbatim>\<open>bytes.Reader\<close> of the
  standard library: at the end it returns \<^verbatim>\<open>0, io.EOF\<close>; otherwise it copies as many
  bytes as it has and as fit, and returns their number with a nil error.
\<close>

definition EOF :: go_error where
  "EOF = ErrorString 1 ''EOF''"

definition bytes_Reader :: "(byte list) io_Reader" where
  "bytes_Reader p s =
     (if s = [] then (([], 0, Some EOF), s)
      else let n = min (length p) (length s)
           in ((zip [0..<n] (take n s), int n, None), drop n s))"

text \<open>
  A reader that replays a script of \<open>Read\<close> results: each call makes the next scripted
  assignments and returns the scripted count and error; at the end of the script it
  returns \<^verbatim>\<open>0, io.EOF\<close>. \<^verbatim>\<open>io.Reader\<close> allows a call to deliver bytes and an
  error together.
\<close>

definition scripted_Reader :: "(((nat \<times> byte) list \<times> int \<times> error) list) io_Reader" where
  "scripted_Reader p script =
     (case script of
        [] \<Rightarrow> (([], 0, Some EOF), [])
      | r # rest \<Rightarrow> (r, rest))"

section \<open>Properties of New\<close>

declare New_loop.simps [simp del]

lemma New_loop_exhausted:
  "maxGenerateAttempts \<le> i \<Longrightarrow>
   New_loop ctx storer userId metaData maxGenerateAttempts i st =
     ((Slice [], Some ErrSessionCollision), st)"
  by (subst New_loop.simps) simp

text \<open>
  C4. With a budget of zero or less, \<open>New\<close> returns the empty identifier and
  \<open>ErrSessionCollision\<close>, and the storer is not invoked: the counting storer still
  shows zero calls and the wrapped storer's state is untouched.
\<close>

theorem New_zero_budget:
  "maxGenerateAttempts \<le> 0 \<Longrightarrow>
   New ctx (counted storer) userId metaData maxGenerateAttempts (0, st) =
     ((Slice [], Some ErrSessionCollision), (0, st))"
  unfolding New_def by (rule New_loop_exhausted)

theorem New_zero_budget_witness:
  "(0::int) \<le> 0 \<and>
   New () (counted scripted) ''alice'' ''meta'' 0 (0, [((Slice [1, 2], None))]) =
     ((Slice [], Some ErrSessionCollision), (0, [((Slice [1, 2], None))])) \<and>
   (-3::int) \<le> 0 \<and>
   New () (counted scripted) ''alice'' ''meta'' (-3) (0, []) =
     ((Slice [], Some ErrSessionCollision), (0, []))"
  using New_zero_budget [of 0 "()" scripted "''alice''" "''meta''" "[((Slice [1, 2], None))]"]
        New_zero_budget [of "-3" "()" scripted "''alice''" "''meta''" "[]"]
  by simp


lemma counted_GenerateAndStore:
  "GenerateAndStore (counted storer) ctx userId metaData (n, st) =
     (fst (GenerateAndStore storer ctx userId metaData st),
      (Suc n, snd (GenerateAndStore storer ctx userId metaData st)))"
  by (simp add: counted_def split: prod.splits)

lemma after_calls_counted:
  "after_calls (counted storer) ctx userId metaData k (n, st) =
     (n + k, after_calls storer ctx userId metaData k st)"
  by (induction k arbitrary: n st) (simp_all add: counted_GenerateAndStore)

lemma nth_result_counted:
  "nth_result (counted storer) ctx userId metaData k (n, st) =
     nth_result storer ctx userId metaData k st"
  by (simp add: nth_result_def after_calls_counted counted_GenerateAndStore)

lemma nth_result_0:
  "nth_result storer ctx userId metaData 0 st =
     fst (GenerateAndStore storer ctx userId metaData st)"
  by (simp add: nth_result_def)

lemma nth_result_Suc:
  "nth_result storer ctx userId metaData (Suc k) st =
     nth_result storer ctx userId metaData k
       (snd (GenerateAndStore storer ctx userId metaData st))"
  by (simp add: nth_result_def)

lemma after_calls_Suc_right:
  "after_calls storer ctx userId metaData (Suc k) st =
     snd (GenerateAndStore storer ctx userId metaData
            (after_calls storer ctx userId metaData k st))"
  by (induction k arbitrary: st) simp_all

lemma New_loop_collision:
  assumes "i < maxGenerateAttempts"
    and "same_error (snd (nth_result storer ctx userId metaData 0 st)) (Some ErrSessionCollision)"
  shows "New_loop ctx storer userId metaData maxGenerateAttempts i st =
         New_loop ctx storer userId metaData maxGenerateAttempts (i + 1)
           (after_calls storer ctx userId metaData 1 st)"
  using assms
  by (subst New_loop.simps) (auto simp: nth_result_0 split: prod.splits)

lemma New_loop_other:
  assumes "i < maxGenerateAttempts"
    and "\<not> same_error (snd (nth_result storer ctx userId metaData 0 st)) (Some ErrSessionCollision)"
  shows "New_loop ctx storer userId metaData maxGenerateAttempts i st =
         (nth_result storer ctx userId metaData 0 st,
          after_calls storer ctx userId metaData 1 st)"
  using assms
  by (subst New_loop.simps) (auto simp: nth_result_0 split: prod.splits)

lemma New_loop_skip_collisions:
  assumes "i + int k \<le> maxGenerateAttempts"
    and "\<forall>j<k. same_error (snd (nth_result storer ctx userId metaData j st))
                  (Some ErrSessionCollision)"
  shows "New_loop ctx storer userId metaData maxGenerateAttempts i st =
         New_loop ctx storer userId metaData maxGenerateAttempts (i + int k)
           (after_calls storer ctx userId metaData k st)"
  using assms
proof (induction k arbitrary: i st)
  case 0
  then show ?case by simp
next
  case (Suc k)
  let ?st1 = "snd (GenerateAndStore storer ctx userId metaData st)"
  from Suc.prems have lt: "i < maxGenerateAttempts" by simp
  from Suc.prems have c0:
    "same_error (snd (nth_result storer ctx userId metaData 0 st)) (Some ErrSessionCollision)"
    by blast
  have rest: "\<forall>j<k. same_error (snd (nth_result storer ctx userId metaData j ?st1))
                       (Some ErrSessionCollision)"
    using Suc.prems(2) by (auto simp: nth_result_Suc [symmetric])
  have "New_loop ctx storer userId metaData maxGenerateAttempts i st =
        New_loop ctx storer userId metaData maxGenerateAttempts (i + 1) ?st1"
    using New_loop_collision [OF lt c0] by simp
  also have "\<dots> = New_loop ctx storer userId metaData maxGenerateAttempts (i + 1 + int k)
                      (after_calls storer ctx userId metaData k ?st1)"
    using Suc.prems(1) rest by (intro Suc.IH) simp_all
  finally show ?case by (simp add: algebra_simps)
qed

lemma New_loop_stops_after:
  assumes "int k < maxGenerateAttempts"
    and "\<forall>j<k. same_error (snd (nth_result storer ctx userId metaData j st))
                  (Some ErrSessionCollision)"
    and "\<not> same_error (snd (nth_result storer ctx userId metaData k st))
              (Some ErrSessionCollision)"
  shows "New_loop ctx storer userId metaData maxGenerateAttempts 0 st =
         (nth_result storer ctx userId metaData k st,
          after_calls storer ctx userId metaData (Suc k) st)"
proof -
  let ?stk = "after_calls storer ctx userId metaData k st"
  have "New_loop ctx storer userId metaData maxGenerateAttempts 0 st =
        New_loop ctx storer userId metaData maxGenerateAttempts (0 + int k) ?stk"
    using assms(1,2) by (intro New_loop_skip_collisions) simp_all
  also have "\<dots> = (nth_result storer ctx userId metaData 0 ?stk,
                    after_calls storer ctx userId metaData 1 ?stk)"
    using assms(1,3) by (intro New_loop_other) (simp_all add: nth_result_def)
  finally show ?thesis
    by (simp add: nth_result_def after_calls_Suc_right del: after_calls.simps(2))
qed

text \<open>
  C1. Retry on collision. If the first \<open>K\<close> calls of \<open>GenerateAndStore\<close> return an error
  that is \<open>ErrSessionCollision\<close>, with \<open>K\<close> below the budget, and call \<open>K + 1\<close> returns
  the session \<open>s\<close> with a nil error, then \<open>New\<close> returns \<open>s\<close> with a nil error, and the
  counting storer shows exactly \<open>K + 1\<close> calls.
\<close>

theorem New_retry_on_collision:
  assumes "int K < maxGenerateAttempts"
    and "\<forall>j<K. same_error (snd (nth_result storer ctx userId metaData j st))
                  (Some ErrSessionCollision)"
    and "nth_result storer ctx userId metaData K st = (s, None)"
  shows "New ctx (counted storer) userId metaData maxGenerateAttempts (0, st) =
         ((s, None), (K + 1, after_calls storer ctx userId metaData (K + 1) st))"
proof -
  have "New_loop ctx (counted storer) userId metaData maxGenerateAttempts 0 (0, st) =
        (nth_result (counted storer) ctx userId metaData K (0, st),
         after_calls (counted storer) ctx userId metaData (Suc K) (0, st))"
    using assms by (intro New_loop_stops_after) (simp_all add: nth_result_counted)
  then show ?thesis
    using assms(3)
    by (simp add: New_def nth_result_counted after_calls_counted counted_GenerateAndStore)
qed

theorem New_retry_on_collision_witness:
  "int 2 < 5 \<and>
   same_error (snd (nth_result scripted () ''alice'' ''meta'' 0
        [(NilSlice, Some ErrSessionCollision), (NilSlice, Some ErrSessionCollision),
         (Slice [1, 2, 3], None)])) (Some ErrSessionCollision) \<and>
   same_error (snd (nth_result scripted () ''alice'' ''meta'' 1
        [(NilSlice, Some ErrSessionCollision), (NilSlice, Some ErrSessionCollision),
         (Slice [1, 2, 3], None)])) (Some ErrSessionCollision) \<and>
   nth_result scripted () ''alice'' ''meta'' 2
        [(NilSlice, Some ErrSessionCollision), (NilSlice, Some ErrSessionCollision),
         (Slice [1, 2, 3], None)] = (Slice [1, 2, 3], None) \<and>
   New () (counted scripted) ''alice'' ''meta'' 5
     (0, [(NilSlice, Some ErrSessionCollision), (NilSlice, Some ErrSessionCollision),
          (Slice [1, 2, 3], None)]) =
     ((Slice [1, 2, 3], None), (3, []))"
proof -
  let ?script = "[(NilSlice, Some ErrSessionCollision), (NilSlice, Some ErrSessionCollision),
                  (Slice [1, 2, 3], None)]"
  have h: "\<forall>j<2. same_error (snd (nth_result scripted () ''alice'' ''meta'' j ?script))
                    (Some ErrSessionCollision)"
    by (simp add: nth_result_def scripted_def ErrSessionCollision_def less_Suc_eq numeral_2_eq_2)
  have r: "nth_result scripted () ''alice'' ''meta'' 2 ?script = (Slice [1, 2, 3], None)"
    by (simp add: nth_result_def scripted_def numeral_2_eq_2)
  show ?thesis
    using h r New_retry_on_collision [of 2 5 scripted "()" "''alice''" "''meta''" ?script, OF _ h r]
    by (simp add: scripted_def numeral_2_eq_2 numeral_3_eq_3)
qed


text \<open>
  C2. Exhaustion. If every call within the budget \<open>M\<close> returns \<open>ErrSessionCollision\<close>,
  then \<open>New\<close> returns the empty identifier together with \<open>ErrSessionCollision\<close> itself,
  after exactly \<open>M\<close> calls when \<open>M \<ge> 0\<close> (and none when \<open>M\<close> is negative:
  \<open>nat M = 0\<close>).
\<close>

theorem New_exhaustion_reports_collision:
  assumes "\<forall>j<nat M. same_error (snd (nth_result storer ctx userId metaData j st))
                       (Some ErrSessionCollision)"
  shows "New ctx (counted storer) userId metaData M (0, st) =
         ((Slice [], Some ErrSessionCollision),
          (nat M, after_calls storer ctx userId metaData (nat M) st))"
proof (cases "0 \<le> M")
  case True
  have "New_loop ctx (counted storer) userId metaData M 0 (0, st) =
        New_loop ctx (counted storer) userId metaData M (0 + int (nat M))
          (after_calls (counted storer) ctx userId metaData (nat M) (0, st))"
    using True assms by (intro New_loop_skip_collisions) (simp_all add: nth_result_counted)
  also have "\<dots> = ((Slice [], Some ErrSessionCollision),
                    after_calls (counted storer) ctx userId metaData (nat M) (0, st))"
    using True by (intro New_loop_exhausted) simp
  finally show ?thesis
    by (simp add: New_def after_calls_counted)
next
  case False
  then have "New_loop ctx (counted storer) userId metaData M 0 (0, st) =
             ((Slice [], Some ErrSessionCollision), (0, st))"
    by (intro New_loop_exhausted) simp
  with False show ?thesis
    by (simp add: New_def)
qed

theorem New_exhaustion_reports_collision_witness:
  "same_error (snd (nth_result scripted () ''alice'' ''meta'' 0
        [(NilSlice, Some ErrSessionCollision), (Slice [9], Some ErrSessionCollision),
         (NilSlice, Some ErrSessionCollision), (Slice [1, 2, 3], None)]))
        (Some ErrSessionCollision) \<and>
   same_error (snd (nth_result scripted () ''alice'' ''meta'' 1
        [(NilSlice, Some ErrSessionCollision), (Slice [9], Some ErrSessionCollision),
         (NilSlice, Some ErrSessionCollision), (Slice [1, 2, 3], None)]))
        (Some ErrSessionCollision) \<and>
   same_error (snd (nth_result scripted () ''alice'' ''meta'' 2
        [(NilSlice, Some ErrSessionCollision), (Slice [9], Some ErrSessionCollision),
         (NilSlice, Some ErrSessionCollision), (Slice [1, 2, 3], None)]))
        (Some ErrSessionCollision) \<and>
   New () (counted scripted) ''alice'' ''meta'' 3
     (0, [(NilSlice, Some ErrSessionCollision), (Slice [9], Some ErrSessionCollision),
          (NilSlice, Some ErrSessionCollision), (Slice [1, 2, 3], None)]) =
     ((Slice [], Some ErrSessionCollision), (3, [(Slice [1, 2, 3], None)]))"
proof -
  let ?script = "[(NilSlice, Some ErrSessionCollision), (Slice [9], Some ErrSessionCollision),
                  (NilSlice, Some ErrSessionCollision), (Slice [1, 2, 3], None)]"
  have h: "\<forall>j<nat 3. same_error (snd (nth_result scripted () ''alice'' ''meta'' j ?script))
                        (Some ErrSessionCollision)"
    by (simp add: nth_result_def scripted_def ErrSessionCollision_def less_Suc_eq
          numeral_3_eq_3)
  show ?thesis
    using h New_exhaustion_reports_collision [of 3 scripted "()" "''alice''" "''meta''" ?script,
                OF h]
    by (simp add: scripted_def numeral_3_eq_3)
qed

text \<open>
  C3. No retry on another error. If a call of \<open>GenerateAndStore\<close> that \<open>New\<close> makes
  (call \<open>K + 1\<close>, the earlier \<open>K\<close> having collided; \<open>K = 0\<close> is the first call) returns
  the session \<open>s\<close> with an error \<open>e\<close> that is not \<open>ErrSessionCollision\<close>, then \<open>New\<close>
  returns \<open>s\<close> and \<open>e\<close> as they are, and that call is the last one: the counting
  storer shows \<open>K + 1\<close> calls, one when the first call fails.
\<close>

theorem New_no_retry_on_other_error:
  assumes "int K < maxGenerateAttempts"
    and "\<forall>j<K. same_error (snd (nth_result storer ctx userId metaData j st))
                  (Some ErrSessionCollision)"
    and "nth_result storer ctx userId metaData K st = (s, Some e)"
    and "\<not> same_error (Some e) (Some ErrSessionCollision)"
  shows "New ctx (counted storer) userId metaData maxGenerateAttempts (0, st) =
         ((s, Some e), (K + 1, after_calls storer ctx userId metaData (K + 1) st))"
proof -
  have "New_loop ctx (counted storer) userId metaData maxGenerateAttempts 0 (0, st) =
        (nth_result (counted storer) ctx userId metaData K (0, st),
         after_calls (counted storer) ctx userId metaData (Suc K) (0, st))"
    using assms by (intro New_loop_stops_after) (simp_all add: nth_result_counted)
  then show ?thesis
    using assms(3)
    by (simp add: New_def nth_result_counted after_calls_counted counted_GenerateAndStore)
qed

theorem New_no_retry_on_other_error_witness:
  "int 0 < 5 \<and>
   nth_result scripted () ''alice'' ''meta'' 0
     [(Slice [4, 2], Some (ErrorString 3 ''backend unavailable'')), (Slice [1, 2, 3], None)] =
     (Slice [4, 2], Some (ErrorString 3 ''backend unavailable'')) \<and>
   \<not> same_error (Some (ErrorString 3 ''backend unavailable'')) (Some ErrSessionCollision) \<and>
   New () (counted scripted) ''alice'' ''meta'' 5
     (0, [(Slice [4, 2], Some (ErrorString 3 ''backend unavailable'')),
          (Slice [1, 2, 3], None)]) =
     ((Slice [4, 2], Some (ErrorString 3 ''backend unavailable'')),
      (1, [(Slice [1, 2, 3], None)]))"
proof -
  let ?script = "[(Slice [4, 2], Some (ErrorString 3 ''backend unavailable'')),
                  (Slice [1, 2, 3], None)]"
  have r: "nth_result scripted () ''alice'' ''meta'' 0 ?script =
           (Slice [4, 2], Some (ErrorString 3 ''backend unavailable''))"
    by (simp add: nth_result_def scripted_def)
  have n: "\<not> same_error (Some (ErrorString 3 ''backend unavailable''))
               (Some ErrSessionCollision)"
    by (simp add: ErrSessionCollision_def ErrSessionCollision_addr_def)
  show ?thesis
    using r n New_no_retry_on_other_error [of 0 5 scripted "()" "''alice''" "''meta''" ?script,
                OF _ _ r n]
    by (simp add: scripted_def)
qed

declare spec_run.simps [simp del]

lemma New_loop_is_spec_run:
  "New_loop ctx storer userId metaData maxGenerateAttempts i st =
   spec_run ctx storer userId metaData maxGenerateAttempts (RUNNING i st)"
proof (induction ctx storer userId metaData maxGenerateAttempts i st rule: New_loop.induct)
  case (1 ctx storer userId metaData maxGenerateAttempts i st)
  obtain session err st' where
    g: "GenerateAndStore storer ctx userId metaData st = ((session, err), st')"
    by (metis surj_pair)
  show ?case
  proof (cases "i < maxGenerateAttempts")
    case False
    then show ?thesis
      by (simp add: New_loop.simps [of _ _ _ _ _ i] spec_run.simps)
  next
    case True
    show ?thesis
    proof (cases "same_error err (Some ErrSessionCollision)")
      case c: True
      have "New_loop ctx storer userId metaData maxGenerateAttempts (i + 1) st' =
            spec_run ctx storer userId metaData maxGenerateAttempts (RUNNING (i + 1) st')"
        using True g c by (intro "1.IH") simp_all
      with True g c show ?thesis
        by (simp add: New_loop.simps [of _ _ _ _ _ i] spec_run.simps(2) [of _ _ _ _ _ i])
    next
      case c: False
      with True g show ?thesis
        by (simp add: New_loop.simps [of _ _ _ _ _ i] spec_run.simps)
    qed
  qed
qed

text \<open>
  C5. \<open>New\<close> is the two-state machine of the specification: for every storer, every
  state it starts from and every budget, \<open>New\<close> and the machine started in
  \<open>RUNNING\<close> with attempt 0 return the same identifier, the same error and the same
  storer state.
\<close>

theorem New_refines_spec_machine:
  "New ctx storer userId metaData maxGenerateAttempts st =
   CreateSession ctx storer userId metaData maxGenerateAttempts st"
  by (simp add: New_def CreateSession_def New_loop_is_spec_run)


lemma New_loop_result:
  "New_loop ctx storer userId metaData maxGenerateAttempts i st = ((s, e), st') \<Longrightarrow>
   (s = Slice [] \<and> e = Some ErrSessionCollision) \<or>
   (\<exists>k. int k < maxGenerateAttempts - i \<and>
        nth_result storer ctx userId metaData k st = (s, e) \<and>
        \<not> same_error e (Some ErrSessionCollision))"
proof (induction ctx storer userId metaData maxGenerateAttempts i st rule: New_loop.induct)
  case (1 ctx storer userId metaData maxGenerateAttempts i st)
  obtain session err st1 where
    g: "GenerateAndStore storer ctx userId metaData st = ((session, err), st1)"
    by (metis surj_pair)
  show ?case
  proof (cases "i < maxGenerateAttempts")
    case False
    with "1.prems" show ?thesis
      by (simp add: New_loop.simps [of _ _ _ _ _ i])
  next
    case True
    show ?thesis
    proof (cases "same_error err (Some ErrSessionCollision)")
      case c: False
      with True g "1.prems" have "(s, e) = (session, err)"
        by (simp add: New_loop.simps [of _ _ _ _ _ i])
      with True g c have
        "int 0 < maxGenerateAttempts - i \<and>
         nth_result storer ctx userId metaData 0 st = (s, e) \<and>
         \<not> same_error e (Some ErrSessionCollision)"
        by (simp add: nth_result_def)
      then show ?thesis by blast
    next
      case c: True
      with True g "1.prems" have
        r: "New_loop ctx storer userId metaData maxGenerateAttempts (i + 1) st1 = ((s, e), st')"
        by (simp add: New_loop.simps [of _ _ _ _ _ i])
      have "(s = Slice [] \<and> e = Some ErrSessionCollision) \<or>
            (\<exists>k. int k < maxGenerateAttempts - (i + 1) \<and>
                 nth_result storer ctx userId metaData k st1 = (s, e) \<and>
                 \<not> same_error e (Some ErrSessionCollision))"
        using True g c r by (intro "1.IH") simp_all
      then show ?thesis
      proof
        assume "s = Slice [] \<and> e = Some ErrSessionCollision"
        then show ?thesis by blast
      next
        assume "\<exists>k. int k < maxGenerateAttempts - (i + 1) \<and>
                 nth_result storer ctx userId metaData k st1 = (s, e) \<and>
                 \<not> same_error e (Some ErrSessionCollision)"
        then obtain k where k: "int k < maxGenerateAttempts - (i + 1)"
          "nth_result storer ctx userId metaData k st1 = (s, e)"
          "\<not> same_error e (Some ErrSessionCollision)" by blast
        have "int (Suc k) < maxGenerateAttempts - i \<and>
              nth_result storer ctx userId metaData (Suc k) st = (s, e) \<and>
              \<not> same_error e (Some ErrSessionCollision)"
          using k g by (simp add: nth_result_Suc)
        then show ?thesis by blast
      qed
    qed
  qed
qed

text \<open>
  C6, as stated, fails: \<open>New\<close> hands back what the storer returned. A storer whose
  first call returns the two bytes 4, 2 together with an error that is not the
  collision makes \<open>New\<close> return a non-nil error with a non-empty identifier.
\<close>

theorem New_error_with_identifier_counterexample:
  "snd (fst (New () scripted ''alice'' ''meta'' 3
       [(Slice [4, 2], Some (ErrorString 3 ''backend unavailable''))])) \<noteq> None \<and>
   len (fst (fst (New () scripted ''alice'' ''meta'' 3
       [(Slice [4, 2], Some (ErrorString 3 ''backend unavailable''))]))) \<noteq> 0"
  by (simp add: New_def New_loop.simps scripted_def ErrSessionCollision_def
        ErrSessionCollision_addr_def)

text \<open>
  C6, amended. Provided every call of \<open>GenerateAndStore\<close> within the budget that
  returns an error other than the collision returns an empty session with it, the
  identifier that \<open>New\<close> returns with a non-nil error is empty.
\<close>

theorem New_error_means_empty_identifier:
  assumes "\<forall>j<nat maxGenerateAttempts. \<forall>s e.
             nth_result storer ctx userId metaData j st = (s, Some e) \<longrightarrow>
             \<not> same_error (Some e) (Some ErrSessionCollision) \<longrightarrow> len s = 0"
    and "New ctx storer userId metaData maxGenerateAttempts st = ((s, Some e), st')"
  shows "len s = 0"
proof -
  from assms(2) have
    "(s = Slice [] \<and> Some e = Some ErrSessionCollision) \<or>
     (\<exists>k. int k < maxGenerateAttempts - 0 \<and>
          nth_result storer ctx userId metaData k st = (s, Some e) \<and>
          \<not> same_error (Some e) (Some ErrSessionCollision))"
    unfolding New_def by (rule New_loop_result)
  then show ?thesis
  proof
    assume "s = Slice [] \<and> Some e = Some ErrSessionCollision"
    then show ?thesis by simp
  next
    assume "\<exists>k. int k < maxGenerateAttempts - 0 \<and>
          nth_result storer ctx userId metaData k st = (s, Some e) \<and>
          \<not> same_error (Some e) (Some ErrSessionCollision)"
    then obtain k where k: "int k < maxGenerateAttempts"
      "nth_result storer ctx userId metaData k st = (s, Some e)"
      "\<not> same_error (Some e) (Some ErrSessionCollision)" by auto
    from k(1) have "k < nat maxGenerateAttempts" by simp
    with assms(1) k(2,3) show ?thesis by blast
  qed
qed

theorem New_error_means_empty_identifier_witness:
  "nth_result scripted () ''alice'' ''meta'' 0
     [(Slice [7], Some ErrSessionCollision),
      (Slice [], Some (ErrorString 3 ''backend unavailable''))] =
     (Slice [7], Some ErrSessionCollision) \<and>
   nth_result scripted () ''alice'' ''meta'' 1
     [(Slice [7], Some ErrSessionCollision),
      (Slice [], Some (ErrorString 3 ''backend unavailable''))] =
     (Slice [], Some (ErrorString 3 ''backend unavailable'')) \<and>
   New () scripted ''alice'' ''meta'' 2
     [(Slice [7], Some ErrSessionCollision),
      (Slice [], Some (ErrorString 3 ''backend unavailable''))] =
     ((Slice [], Some (ErrorString 3 ''backend unavailable'')), []) \<and>
   len (Slice []) = 0"
proof -
  let ?script = "[(Slice [7], Some ErrSessionCollision),
                  (Slice [], Some (ErrorString 3 ''backend unavailable''))]"
  have h: "\<forall>j<nat 2. \<forall>s e.
      nth_result scripted () ''alice'' ''meta'' j ?script = (s, Some e) \<longrightarrow>
      \<not> same_error (Some e) (Some ErrSessionCollision) \<longrightarrow> len s = 0"
    by (auto simp: nth_result_def scripted_def ErrSessionCollision_def less_Suc_eq
          numeral_2_eq_2)
  have r: "New () scripted ''alice'' ''meta'' 2 ?script =
           ((Slice [], Some (ErrorString 3 ''backend unavailable'')), [])"
    by (simp add: New_def New_loop.simps scripted_def ErrSessionCollision_def
          ErrSessionCollision_addr_def)
  show ?thesis
    using r New_error_means_empty_identifier [of 2 scripted "()" "''alice''" "''meta''"
                ?script "Slice []" "ErrorString 3 ''backend unavailable''" "[]", OF h r]
    by (simp add: nth_result_def scripted_def)
qed







section \<open>Properties of Generate\<close>

lemma assign_all_length:
  "assign_all ws b = Inr b' \<Longrightarrow> length b' = length b"
  by (induction ws b rule: assign_all.induct) (auto split: if_splits)

text \<open>
  C8. A call of \<open>Generate\<close> that returns a nil error returns a non-nil slice of exactly
  \<open>bytes r\<close> bytes (and the configured length was not negative).
\<close>

theorem Generate_success_length:
  assumes "Generate rt r st = Inr ((b, None), st')"
  shows "0 \<le> bytes r \<and> b \<noteq> NilSlice \<and> int (len b) = bytes r"
proof (cases "bytes r < 0")
  case True
  with assms show ?thesis by (simp add: Generate_def make_bytes_def)
next
  case False
  obtain ws n err st1 where
    rd: "reader r (replicate (nat (bytes r)) 0) st = ((ws, n, err), st1)"
    by (metis prod_cases3 surj_pair)
  with False assms obtain b' where
    "assign_all ws (replicate (nat (bytes r)) 0) = Inr b'" "b = Slice b'"
    by (auto simp: Generate_def make_bytes_def split: sum.splits if_splits)
  with False show ?thesis
    by (auto dest: assign_all_length)
qed

theorem Generate_success_length_witness:
  "Generate runtime_amd64 (NewRandomSource 4 bytes_Reader) [1, 2, 3, 4, 5, 6] =
     Inr ((Slice [1, 2, 3, 4], None), [5, 6]) \<and>
   (0::int) \<le> bytes (NewRandomSource 4 bytes_Reader) \<and>
   Slice [1, 2, 3, 4] \<noteq> NilSlice \<and>
   int (len (Slice [1, 2, 3, 4])) = bytes (NewRandomSource 4 bytes_Reader)"
proof -
  have g: "Generate runtime_amd64 (NewRandomSource 4 bytes_Reader) [1, 2, 3, 4, 5, 6] =
           Inr ((Slice [1, 2, 3, 4], None), [5, 6])"
    by (simp add: Generate_def NewRandomSource_def make_bytes_def runtime_amd64_def
          bytes_Reader_def eval_nat_numeral upt_rec)
  show ?thesis
    using g Generate_success_length [OF g] by simp
qed

text \<open>
  C9. A short read is not reported. With four bytes configured and a source that has one
  byte left, \<open>Read\<close> returns the count 1 and a nil error; \<open>Generate\<close> drops the count
  and returns the buffer, one byte from the source and three zero bytes, with a nil
  error.
\<close>

theorem Generate_short_read_succeeds:
  "bytes_Reader (replicate 4 0) [0xAB] = (([(0, 0xAB)], 1, None), []) \<and>
   Generate runtime_amd64 (NewRandomSource 4 bytes_Reader) [0xAB] =
     Inr ((Slice [0xAB, 0, 0, 0], None), [])"
  by (simp add: Generate_def NewRandomSource_def make_bytes_def runtime_amd64_def
        bytes_Reader_def eval_nat_numeral upt_rec)

lemma assign_all_fold:
  "\<forall>w\<in>set ws. fst w < length b \<Longrightarrow>
   assign_all ws b = Inr (fold (\<lambda>(i, v) b. b[i := v]) ws b)"
  by (induction ws b rule: assign_all.induct) auto

lemma length_fold_assign:
  "length (fold (\<lambda>(i, v) b. b[i := v]) ws b) = length b"
  by (induction ws arbitrary: b) (auto split: prod.splits)

text \<open>
  C10, as stated, fails: not every length \<open>N \<ge> 0\<close> can be allocated. With
  \<open>N = 2 ^ 62\<close> on a 64-bit runtime \<^verbatim>\<open>make\<close> panics, \<open>Read\<close> is never called and
  \<open>Generate\<close> returns no slice.
\<close>

theorem Generate_huge_length_counterexample:
  "(0::int) \<le> bytes (NewRandomSource (2 ^ 62) bytes_Reader) \<and>
   Generate runtime_amd64 (NewRandomSource (2 ^ 62) bytes_Reader) [] =
     Inl MakesliceLenOutOfRange"
  by (simp add: Generate_def NewRandomSource_def make_bytes_def runtime_amd64_def)

text \<open>
  C10, amended. For a configured length \<open>N \<ge> 0\<close> that the runtime can allocate (at
  most \<open>maxAlloc\<close>, and the heap can supply it), whenever \<open>Read\<close> returns (its
  assignments stay inside the buffer), with an error or without, \<open>Generate\<close> returns
  the buffer as \<open>Read\<close> left it: a non-nil slice of exactly \<open>N\<close> bytes, zero except
  where \<open>Read\<close> assigned, together with the error of \<open>Read\<close>, unchanged.
\<close>

theorem Generate_returns_filled_buffer_with_error:
  assumes "0 \<le> bytes r"
    and "bytes r \<le> maxAlloc rt"
    and "bytes r \<le> heapAvailable rt"
    and "reader r (replicate (nat (bytes r)) 0) st = ((ws, n, err), st')"
    and "\<forall>w\<in>set ws. fst w < nat (bytes r)"
  shows "Generate rt r st =
           Inr ((Slice (fold (\<lambda>(i, v) b. b[i := v]) ws (replicate (nat (bytes r)) 0)), err),
                st') \<and>
         int (length (fold (\<lambda>(i, v) b. b[i := v]) ws (replicate (nat (bytes r)) 0))) =
           bytes r"
proof -
  have "assign_all ws (replicate (nat (bytes r)) 0) =
        Inr (fold (\<lambda>(i, v) b. b[i := v]) ws (replicate (nat (bytes r)) 0))"
    using assms(5) by (intro assign_all_fold) simp
  with assms(1-4) show ?thesis
    by (simp add: Generate_def make_bytes_def length_fold_assign)
qed

theorem Generate_returns_filled_buffer_with_error_witness:
  "(0::int) \<le> bytes (NewRandomSource 4 scripted_Reader) \<and>
   bytes (NewRandomSource 4 scripted_Reader) \<le> maxAlloc runtime_amd64 \<and>
   bytes (NewRandomSource 4 scripted_Reader) \<le> heapAvailable runtime_amd64 \<and>
   reader (NewRandomSource 4 scripted_Reader) (replicate 4 0)
     [([(0, 0xAB), (1, 0xCD)], 2, Some (ErrorString 9 ''unexpected EOF''))] =
     (([(0, 0xAB), (1, 0xCD)], 2, Some (ErrorString 9 ''unexpected EOF'')), []) \<and>
   Generate runtime_amd64 (NewRandomSource 4 scripted_Reader)
     [([(0, 0xAB), (1, 0xCD)], 2, Some (ErrorString 9 ''unexpected EOF''))] =
     Inr ((Slice [0xAB, 0xCD, 0, 0], Some (ErrorString 9 ''unexpected EOF'')), [])"
proof -
  let ?r = "NewRandomSource 4 scripted_Reader
              :: (((nat \<times> byte) list \<times> int \<times> error) list) randomSource"
  let ?ws = "[(0, 0xAB), (1, 0xCD)] :: (nat \<times> byte) list"
  let ?script = "[(?ws, 2, Some (ErrorString 9 ''unexpected EOF''))]"
  have n: "(0::int) \<le> bytes ?r" by (simp add: NewRandomSource_def)
  have a: "bytes ?r \<le> maxAlloc runtime_amd64"
    by (simp add: NewRandomSource_def runtime_amd64_def)
  have h: "bytes ?r \<le> heapAvailable runtime_amd64"
    by (simp add: NewRandomSource_def runtime_amd64_def)
  have rd: "reader ?r (replicate (nat (bytes ?r)) 0) ?script =
            ((?ws, 2, Some (ErrorString 9 ''unexpected EOF'')), [])"
    by (simp add: NewRandomSource_def scripted_Reader_def)
  have w: "\<forall>w\<in>set ?ws. fst w < nat (bytes ?r)"
    by (simp add: NewRandomSource_def)
  show ?thesis
    using n a h rd Generate_returns_filled_buffer_with_error [OF n a h rd w]
    by (simp add: NewRandomSource_def eval_nat_numeral)
qed

end
